theory Spec2Isabelle
  imports Main
begin

section \<open>HAR capture from browser network events (main.go)\<close>

text \<open>
  The program listens to the events of a browser session, turns every request and
  response event into a HAR page or entry, collects them over a channel and writes the
  resulting HAR log to a file. This theory embeds \<open>headersToHAR\<close>, \<open>processRequest\<close>,
  \<open>processResponse\<close>, the event callback, the channel and the body of \<open>main\<close>.

  Two library functions are not part of the program and appear as parameters:
  \<open>Sprint\<close> stands for \<open>fmt.Sprint\<close> on a header value and \<open>FormatRFC3339Nano\<close> for
  \<open>WallTime.Time().Format(time.RFC3339Nano)\<close>.
\<close>

subsection \<open>Data model\<close>

text \<open>
  A header value has the dynamic type \<open>interface{}\<close>. The program tells two cases apart
  with the type assertion \<open>values.([]string)\<close>: a slice of strings, and a value of any
  other dynamic type (type parameter \<open>'v\<close>). A slice of another type, such as
  \<open>[]interface{}\<close>, fails the assertion and is a value of the second kind.
\<close>

datatype 'v header_value = StringSlice "string list" | OtherValue 'v

text \<open>
  \<open>network.Headers\<close> is a Go map. A \<open>range\<close> statement visits every key once, in an
  order the language leaves open; the association list is the map in the order in which
  the loop visits it, and \<open>wf_headers\<close> says that it has one binding for each key.
\<close>

type_synonym 'v Headers = "(string \<times> 'v header_value) list"


record NameValuePair =
  nvp_Name :: string
  nvp_Value :: string

record har_Request =
  har_Method :: string
  har_URL :: string
  har_Headers :: "NameValuePair list"

text \<open>
  \<open>har.Page\<close> and \<open>har.Entry\<close> with the fields the program sets; the other fields of the
  library types keep their zero value in every record the program builds. The request of
  an entry is a pointer: \<open>None\<close> is \<open>nil\<close>.
\<close>

record Page =
  page_ID :: string
  page_StartedDateTime :: string
  page_Title :: string

record Entry =
  entry_Pageref :: string
  entry_StartedDateTime :: string
  entry_Request :: "har_Request option"

subsection \<open>headersToHAR\<close>

text \<open>
  The inner loop \<open>for _, value := range arr\<close> appends one pair for each element of the
  slice; the outer loop goes over the map and appends to the same slice \<open>harHeaders\<close>.
\<close>

fun append_values :: "string \<Rightarrow> string list \<Rightarrow> NameValuePair list \<Rightarrow> NameValuePair list" where
  "append_values name [] harHeaders = harHeaders"
| "append_values name (v # arr) harHeaders =
     append_values name arr (harHeaders @ [\<lparr>nvp_Name = name, nvp_Value = v\<rparr>])"

fun headers_loop ::
  "('v \<Rightarrow> string) \<Rightarrow> 'v Headers \<Rightarrow> NameValuePair list \<Rightarrow> NameValuePair list" where
  "headers_loop Sprint [] harHeaders = harHeaders"
| "headers_loop Sprint ((name, values) # rest) harHeaders =
     (case values of
        StringSlice arr \<Rightarrow> headers_loop Sprint rest (append_values name arr harHeaders)
      | OtherValue x \<Rightarrow>
          headers_loop Sprint rest (harHeaders @ [\<lparr>nvp_Name = name, nvp_Value = Sprint x\<rparr>]))"

definition headersToHAR :: "('v \<Rightarrow> string) \<Rightarrow> 'v Headers \<Rightarrow> NameValuePair list" where
  "headersToHAR Sprint headers = headers_loop Sprint headers []"


subsection \<open>Network events\<close>

text \<open>
  \<open>network.ResourceType\<close> is a string type; \<open>ResourceTypeDocument\<close> is its constant for a
  top-level document. The wall-clock time of a request has the abstract type \<open>'w\<close>.
  The fields \<open>Request\<close> and \<open>WallTime\<close> are pointers that the driver sets in every
  event it delivers. Of a response event the program reads the resource type only.
\<close>

type_synonym ResourceType = string

definition ResourceTypeDocument :: ResourceType where
  "ResourceTypeDocument = ''Document''"

record 'v network_Request =
  req_Method :: string
  req_URL :: string
  req_Headers :: "'v Headers"

record ('w, 'v) EventRequestWillBeSent =
  RequestID :: string
  Request :: "'v network_Request"
  WallTime :: 'w
  Type :: ResourceType

record EventResponseReceived =
  resp_RequestID :: string
  resp_Type :: ResourceType

record EventLifecycleEvent =
  Name :: string

text \<open>
  The callback receives a value of type \<open>interface{}\<close> and switches on its dynamic type;
  \<open>OtherEvent\<close> is an event of any type the switch has no case for.
\<close>

datatype ('w, 'v) event =
    RequestWillBeSent "('w, 'v) EventRequestWillBeSent"
  | ResponseReceived EventResponseReceived
  | LifecycleEvent EventLifecycleEvent
  | OtherEvent

subsection \<open>The channel harCh\<close>

text \<open>
  The channel carries \<open>interface{}\<close>; the program sends \<open>har.Page\<close> and \<open>har.Entry\<close> values
  only. The channel is unbuffered, so a send is accepted when the receiving loop takes the
  value: \<open>ch_queue\<close> is the sequence of accepted values the loop has still to go through,
  in the order of acceptance. Go panics on a send to a closed channel and on closing a
  closed channel; a panic in any goroutine ends the process.
\<close>

datatype har_msg = MsgPage Page | MsgEntry Entry

datatype panic = SendOnClosedChannel | CloseOfClosedChannel

record chan =
  ch_closed :: bool
  ch_queue :: "har_msg list"

definition make_chan :: chan where
  "make_chan = \<lparr>ch_closed = False, ch_queue = []\<rparr>"

definition send :: "chan \<Rightarrow> har_msg \<Rightarrow> panic + chan" where
  "send c v =
     (if ch_closed c then Inl SendOnClosedChannel
      else Inr (c\<lparr>ch_queue := ch_queue c @ [v]\<rparr>))"

definition close :: "chan \<Rightarrow> panic + chan" where
  "close c =
     (if ch_closed c then Inl CloseOfClosedChannel
      else Inr (c\<lparr>ch_closed := True\<rparr>))"

subsection \<open>processRequest and processResponse\<close>

definition processRequest ::
  "('w \<Rightarrow> string) \<Rightarrow> ('v \<Rightarrow> string) \<Rightarrow> ('w, 'v) EventRequestWillBeSent \<Rightarrow> chan \<Rightarrow> panic + chan" where
  "processRequest FormatRFC3339Nano Sprint ev harCh =
     (if Type ev = ResourceTypeDocument then
        send harCh (MsgPage
          \<lparr>page_ID = ''page_'' @ RequestID ev,
           page_StartedDateTime = FormatRFC3339Nano (WallTime ev),
           page_Title = req_URL (Request ev)\<rparr>)
      else
        send harCh (MsgEntry
          \<lparr>entry_Pageref = ''page_'' @ RequestID ev,
           entry_StartedDateTime = FormatRFC3339Nano (WallTime ev),
           entry_Request = Some
             \<lparr>har_Method = req_Method (Request ev),
              har_URL = req_URL (Request ev),
              har_Headers = headersToHAR Sprint (req_Headers (Request ev))\<rparr>\<rparr>))"

text \<open>The composite literals \<open>har.Page{}\<close> and \<open>har.Entry{}\<close>: every field zero.\<close>

definition zero_Page :: Page where
  "zero_Page = \<lparr>page_ID = [], page_StartedDateTime = [], page_Title = []\<rparr>"

definition zero_Entry :: Entry where
  "zero_Entry = \<lparr>entry_Pageref = [], entry_StartedDateTime = [], entry_Request = None\<rparr>"

definition processResponse :: "EventResponseReceived \<Rightarrow> chan \<Rightarrow> panic + chan" where
  "processResponse ev harCh =
     (if resp_Type ev = ResourceTypeDocument then send harCh (MsgPage zero_Page)
      else send harCh (MsgEntry zero_Entry))"

subsection \<open>The HAR object and the receiving loop of main\<close>

record Creator =
  creator_Name :: string
  creator_Version :: string
  creator_Comment :: string

record har_Log =
  log_Version :: string
  log_Browser :: Creator
  log_Creator :: Creator
  Pages :: "Page list"
  Entries :: "Entry list"

record HAR =
  Log :: har_Log

definition harObject_init :: HAR where
  "harObject_init =
     \<lparr>Log =
        \<lparr>log_Version = ''1.2'',
         log_Browser =
           \<lparr>creator_Name = ''Google Chrome'', creator_Version = ''90.0.4430.93'',
            creator_Comment = []\<rparr>,
         log_Creator =
           \<lparr>creator_Name = ''chromedp'', creator_Version = ''0.1.0'',
            creator_Comment = ''HAR capture''\<rparr>,
         Pages = [],
         Entries = []\<rparr>\<rparr>"

text \<open>
  The type switch in the body of \<open>for data := range harCh\<close>. The pointer it appends is
  to the variable the switch declares in the clause, a new one at every iteration, so the
  log holds the values as they were received.
\<close>

definition range_body :: "har_msg \<Rightarrow> HAR \<Rightarrow> HAR" where
  "range_body data harObject =
     (case data of
        MsgPage p \<Rightarrow> harObject\<lparr>Log := (Log harObject)\<lparr>Pages := Pages (Log harObject) @ [p]\<rparr>\<rparr>
      | MsgEntry e \<Rightarrow> harObject\<lparr>Log := (Log harObject)\<lparr>Entries := Entries (Log harObject) @ [e]\<rparr>\<rparr>)"

text \<open>
  The loop takes the accepted values in order and ends when the channel is closed and
  nothing is left. On a channel that is never closed the receive blocks for ever: the loop
  does not return, which is the value \<open>None\<close>.
\<close>

partial_function (option) drain :: "chan \<Rightarrow> HAR \<Rightarrow> HAR option" where
  "drain harCh harObject =
     (case ch_queue harCh of
        data # rest \<Rightarrow> drain (harCh\<lparr>ch_queue := rest\<rparr>) (range_body data harObject)
      | [] \<Rightarrow> if ch_closed harCh then Some harObject else drain harCh harObject)"

subsection \<open>main\<close>

text \<open>
  What a run of \<open>main\<close> leaves behind: the lines it logs and the calls of \<open>os.WriteFile\<close>
  it makes (file name and content).
\<close>

datatype log_line = Warn string | Info string

record outcome =
  logs :: "log_line list"
  writes :: "(string \<times> string) list"

text \<open>
  The inputs of \<open>main\<close> that come from outside: \<open>navErr\<close> is the error of
  \<open>chromedp.Run(ctx, chromedp.Navigate(...))\<close> (\<open>None\<close> is \<open>nil\<close>, an error is its message),
  \<open>harCh\<close> is the channel with all the sends it accepts and whether it is closed,
  \<open>MarshalIndent\<close> is \<open>json.MarshalIndent\<close> on the HAR object (\<open>Inl\<close> its error) and
  \<open>WriteFile\<close> the error of \<open>os.WriteFile\<close>. The result \<open>None\<close> means that \<open>main\<close> does not
  return.
\<close>

definition main ::
  "string option \<Rightarrow> chan \<Rightarrow> (HAR \<Rightarrow> string + string) \<Rightarrow> (string \<Rightarrow> string \<Rightarrow> string option) \<Rightarrow>
   outcome option" where
  "main navErr harCh MarshalIndent WriteFile =
     (case navErr of
        Some err \<Rightarrow> Some \<lparr>logs = [Warn (''error navigating: '' @ err)], writes = []\<rparr>
      | None \<Rightarrow>
          (case drain harCh harObject_init of
             None \<Rightarrow> None
           | Some harObject \<Rightarrow>
               (case MarshalIndent harObject of
                  Inl err \<Rightarrow>
                    Some \<lparr>logs = [Warn (''error marshaling HAR object: '' @ err)], writes = []\<rparr>
                | Inr harJSON \<Rightarrow>
                    (case WriteFile ''output.har'' harJSON of
                       Some err \<Rightarrow>
                         Some \<lparr>logs = [Warn (''error writing HAR file: '' @ err)],
                               writes = [(''output.har'', harJSON)]\<rparr>
                     | None \<Rightarrow>
                         Some \<lparr>logs = [Info ''HAR file generated successfully.''],
                               writes = [(''output.har'', harJSON)]\<rparr>))))"

subsection \<open>The event callback and the goroutines it starts\<close>

text \<open>
  \<open>go processRequest(ev, harCh)\<close> starts a goroutine that performs its send at some later
  moment. A session is the channel, the goroutines started and not yet through their
  send, and the panic that ended the process, if any.
\<close>

datatype ('w, 'v) goroutine =
    GoProcessRequest "('w, 'v) EventRequestWillBeSent"
  | GoProcessResponse EventResponseReceived

record ('w, 'v) session =
  sess_ch :: chan
  sess_goroutines :: "('w, 'v) goroutine list"
  sess_crashed :: "panic option"

definition new_session :: "('w, 'v) session" where
  "new_session = \<lparr>sess_ch = make_chan, sess_goroutines = [], sess_crashed = None\<rparr>"

text \<open>The function passed to \<open>chromedp.ListenTarget\<close>.\<close>

definition listener :: "('w, 'v) event \<Rightarrow> ('w, 'v) session \<Rightarrow> ('w, 'v) session" where
  "listener ev s =
     (case ev of
        RequestWillBeSent e \<Rightarrow> s\<lparr>sess_goroutines := sess_goroutines s @ [GoProcessRequest e]\<rparr>
      | ResponseReceived e \<Rightarrow> s\<lparr>sess_goroutines := sess_goroutines s @ [GoProcessResponse e]\<rparr>
      | LifecycleEvent e \<Rightarrow>
          (if Name e = ''InteractiveTime'' then
             (case close (sess_ch s) of
                Inl p \<Rightarrow> s\<lparr>sess_crashed := Some p\<rparr>
              | Inr c \<Rightarrow> s\<lparr>sess_ch := c\<rparr>)
           else s)
      | OtherEvent \<Rightarrow> s)"

definition run_goroutine ::
  "('w \<Rightarrow> string) \<Rightarrow> ('v \<Rightarrow> string) \<Rightarrow> ('w, 'v) goroutine \<Rightarrow> chan \<Rightarrow> panic + chan" where
  "run_goroutine FormatRFC3339Nano Sprint g c =
     (case g of
        GoProcessRequest ev \<Rightarrow> processRequest FormatRFC3339Nano Sprint ev c
      | GoProcessResponse ev \<Rightarrow> processResponse ev c)"

text \<open>
  A schedule is a sequence of steps: the driver delivers an event to the callback, or the
  \<open>i\<close>-th waiting goroutine performs its send and ends. A step \<open>Resume i\<close> without an
  \<open>i\<close>-th waiting goroutine does nothing. After a panic nothing runs any more.
\<close>

datatype ('w, 'v) step = Deliver "('w, 'v) event" | Resume nat

definition step ::
  "('w \<Rightarrow> string) \<Rightarrow> ('v \<Rightarrow> string) \<Rightarrow> ('w, 'v) step \<Rightarrow> ('w, 'v) session \<Rightarrow> ('w, 'v) session" where
  "step FormatRFC3339Nano Sprint st s =
     (case st of
        Deliver ev \<Rightarrow> listener ev s
      | Resume i \<Rightarrow>
          (if i < length (sess_goroutines s) then
             (case run_goroutine FormatRFC3339Nano Sprint (sess_goroutines s ! i) (sess_ch s) of
                Inl p \<Rightarrow> s\<lparr>sess_crashed := Some p\<rparr>
              | Inr c \<Rightarrow>
                  s\<lparr>sess_ch := c,
                    sess_goroutines := take i (sess_goroutines s) @ drop (Suc i) (sess_goroutines s)\<rparr>)
           else s))"

fun exec ::
  "('w \<Rightarrow> string) \<Rightarrow> ('v \<Rightarrow> string) \<Rightarrow> ('w, 'v) session \<Rightarrow> ('w, 'v) step list \<Rightarrow> ('w, 'v) session" where
  "exec FormatRFC3339Nano Sprint s [] = s"
| "exec FormatRFC3339Nano Sprint s (st # rest) =
     (if sess_crashed s = None then exec FormatRFC3339Nano Sprint (step FormatRFC3339Nano Sprint st s) rest
      else s)"

subsection \<open>Observations on channels and schedules\<close>

text \<open>
  The pages and the entries among the values a channel accepted, each in the order of
  acceptance.
\<close>

definition received_pages :: "har_msg list \<Rightarrow> Page list" where
  "received_pages msgs = concat (map (\<lambda>m. case m of MsgPage p \<Rightarrow> [p] | MsgEntry e \<Rightarrow> []) msgs)"

definition received_entries :: "har_msg list \<Rightarrow> Entry list" where
  "received_entries msgs = concat (map (\<lambda>m. case m of MsgPage p \<Rightarrow> [] | MsgEntry e \<Rightarrow> [e]) msgs)"

text \<open>
  What a step of a schedule delivers: a lifecycle event named \<open>InteractiveTime\<close>, a
  request event for a document or for another resource, a response event for a document
  or for another resource.
\<close>

fun delivers_interactive :: "('w, 'v) step \<Rightarrow> bool" where
  "delivers_interactive (Deliver (LifecycleEvent e)) = (Name e = ''InteractiveTime'')"
| "delivers_interactive _ = False"

fun document_request :: "('w, 'v) step \<Rightarrow> bool" where
  "document_request (Deliver (RequestWillBeSent e)) = (Type e = ResourceTypeDocument)"
| "document_request _ = False"

fun other_request :: "('w, 'v) step \<Rightarrow> bool" where
  "other_request (Deliver (RequestWillBeSent e)) = (Type e \<noteq> ResourceTypeDocument)"
| "other_request _ = False"

fun document_response :: "('w, 'v) step \<Rightarrow> bool" where
  "document_response (Deliver (ResponseReceived e)) = (resp_Type e = ResourceTypeDocument)"
| "document_response _ = False"

fun other_response :: "('w, 'v) step \<Rightarrow> bool" where
  "other_response (Deliver (ResponseReceived e)) = (resp_Type e \<noteq> ResourceTypeDocument)"
| "other_response _ = False"

text \<open>
  Whether a goroutine is going to send a page, whether a value on the channel is a page,
  and the pages (entries) of a session: those the channel accepted together with those
  the waiting goroutines have still to send.
\<close>

fun sends_page :: "('w, 'v) goroutine \<Rightarrow> bool" where
  "sends_page (GoProcessRequest e) = (Type e = ResourceTypeDocument)"
| "sends_page (GoProcessResponse e) = (resp_Type e = ResourceTypeDocument)"

fun is_page :: "har_msg \<Rightarrow> bool" where
  "is_page (MsgPage p) = True"
| "is_page (MsgEntry e) = False"

definition page_total :: "('w, 'v) session \<Rightarrow> nat" where
  "page_total s = length (filter is_page (ch_queue (sess_ch s))) +
                  length (filter sends_page (sess_goroutines s))"

definition entry_total :: "('w, 'v) session \<Rightarrow> nat" where
  "entry_total s = length (filter (\<lambda>m. \<not> is_page m) (ch_queue (sess_ch s))) +
                  length (filter (\<lambda>g. \<not> sends_page g) (sess_goroutines s))"

subsection \<open>Example events\<close>

text \<open>
  Two request events for concrete runs. Their wall-clock time is given as text, so the
  runs below take the identity for \<open>FormatRFC3339Nano\<close>; the header values that are not
  string slices are strings, and the runs take the identity for \<open>Sprint\<close>.
\<close>

definition example_document :: "(string, string) EventRequestWillBeSent" where
  "example_document =
     \<lparr>RequestID = ''7'',
      Request = \<lparr>req_Method = ''GET'', req_URL = ''https://google.com/'', req_Headers = []\<rparr>,
      WallTime = ''2021-05-01T10:00:00.5Z'',
      Type = ''Document''\<rparr>"

definition example_image :: "(string, string) EventRequestWillBeSent" where
  "example_image =
     \<lparr>RequestID = ''8'',
      Request =
        \<lparr>req_Method = ''GET'', req_URL = ''https://google.com/logo.png'',
         req_Headers =
           [(''Accept'', StringSlice [''image/png'', ''image/*'']),
            (''Referer'', OtherValue ''https://google.com/'')]\<rparr>,
      WallTime = ''2021-05-01T10:00:00.75Z'',
      Type = ''Image''\<rparr>"

subsection \<open>Example header values\<close>




section \<open>Lemmas\<close>

subsection \<open>headersToHAR\<close>











subsection \<open>The receiving loop\<close>

text \<open>
  On a closed channel the loop returns the object with the accepted pages and entries
  appended; on a channel that is not closed it does not return.
\<close>

lemma drain_closed_gen:
  "ch_closed c \<Longrightarrow>
   drain c h =
     Some (h\<lparr>Log := (Log h)\<lparr>Pages := Pages (Log h) @ received_pages (ch_queue c),
                             Entries := Entries (Log h) @ received_entries (ch_queue c)\<rparr>\<rparr>)"
proof (induction "ch_queue c" arbitrary: c h)
  case Nil
  then show ?case
    by (subst drain.simps) (simp add: received_pages_def received_entries_def)
next
  case (Cons data rest)
  let ?c = "c\<lparr>ch_queue := rest\<rparr>"
  have q: "ch_queue c = data # rest" using Cons.hyps(2) by simp
  have "drain c h = drain ?c (range_body data h)"
    by (subst drain.simps) (simp add: q)
  also have "\<dots> = Some ((range_body data h)\<lparr>Log := (Log (range_body data h))
        \<lparr>Pages := Pages (Log (range_body data h)) @ received_pages rest,
         Entries := Entries (Log (range_body data h)) @ received_entries rest\<rparr>\<rparr>)"
    using Cons.hyps(1) [of ?c "range_body data h"] Cons.prems by simp
  finally show ?case
    by (cases data) (simp_all add: q range_body_def received_pages_def received_entries_def)
qed

lemma drain_Some_closed:
  assumes "drain c h = Some y"
  shows "ch_closed c"
proof (rule drain.raw_induct [where P = "\<lambda>c h y. ch_closed c", OF _ assms])
  fix d :: "chan \<Rightarrow> HAR \<Rightarrow> HAR option" and c h y
  assume IH: "\<And>c h y. d c h = Some y \<Longrightarrow> ch_closed c"
    and body: "(case ch_queue c of
                  [] \<Rightarrow> if ch_closed c then Some h else d c h
                | data # rest \<Rightarrow> d (c\<lparr>ch_queue := rest\<rparr>) (range_body data h)) = Some y"
  show "ch_closed c"
  proof (cases "ch_queue c")
    case Nil
    with body IH [of c h y] show ?thesis by (cases "ch_closed c") simp_all
  next
    case (Cons data rest)
    with body have "d (c\<lparr>ch_queue := rest\<rparr>) (range_body data h) = Some y" by simp
    from IH [OF this] show ?thesis by simp
  qed
qed

lemma drain_open_None: "\<not> ch_closed c \<Longrightarrow> drain c h = None"
  using drain_Some_closed [of c h] by (cases "drain c h") auto

lemma length_received_pages: "length (received_pages q) = length (filter is_page q)"
  by (induction q) (simp_all add: received_pages_def split: har_msg.split)

lemma length_received_entries: "length (received_entries q) = length (filter (\<lambda>m. \<not> is_page m) q)"
  by (induction q) (simp_all add: received_entries_def split: har_msg.split)

subsection \<open>Goroutines and steps\<close>

lemma run_goroutine_closed:
  "ch_closed c \<Longrightarrow> run_goroutine F S g c = Inl SendOnClosedChannel"
  by (cases g) (simp_all add: run_goroutine_def processRequest_def processResponse_def send_def)

lemma send_open:
  "\<not> ch_closed c \<Longrightarrow> send c m = Inr (c\<lparr>ch_queue := ch_queue c @ [m]\<rparr>)"
  by (simp add: send_def)

lemma run_goroutine_open:
  assumes "\<not> ch_closed c"
  shows "\<exists>m. run_goroutine F S g c = Inr (c\<lparr>ch_queue := ch_queue c @ [m]\<rparr>) \<and>
             is_page m = sends_page g"
proof (cases g)
  case (GoProcessRequest e)
  show ?thesis
  proof (cases "Type e = ResourceTypeDocument")
    case True
    then show ?thesis
      using send_open [OF assms, of "MsgPage p" for p]
      by (simp add: GoProcessRequest run_goroutine_def processRequest_def) (rule exI [of _ "MsgPage p" for p], simp)
  next
    case False
    then show ?thesis
      using send_open [OF assms, of "MsgEntry p" for p]
      by (simp add: GoProcessRequest run_goroutine_def processRequest_def) (rule exI [of _ "MsgEntry p" for p], simp)
  qed
next
  case (GoProcessResponse e)
  show ?thesis
  proof (cases "resp_Type e = ResourceTypeDocument")
    case True
    then show ?thesis
      using send_open [OF assms, of "MsgPage p" for p]
      by (simp add: GoProcessResponse run_goroutine_def processResponse_def) (rule exI [of _ "MsgPage p" for p], simp)
  next
    case False
    then show ?thesis
      using send_open [OF assms, of "MsgEntry p" for p]
      by (simp add: GoProcessResponse run_goroutine_def processResponse_def) (rule exI [of _ "MsgEntry p" for p], simp)
  qed
qed

lemma filter_remove_nth:
  assumes "i < length gs"
  shows "length (filter P (take i gs @ drop (Suc i) gs)) + (if P (gs ! i) then 1 else 0) =
         length (filter P gs)"
proof -
  have "length (filter P gs) = length (filter P (take i gs @ gs ! i # drop (Suc i) gs))"
    using id_take_nth_drop [OF assms] by simp
  then show ?thesis by simp
qed

text \<open>
  A step that does not crash keeps the pages and entries of the session, and the delivery
  of a request or response event adds one.
\<close>

lemma listener_page_total:
  "page_total (listener ev s) =
     page_total s + (if document_request (Deliver ev) \<or> document_response (Deliver ev) then 1 else 0)"
proof (cases ev)
  case (LifecycleEvent e)
  then show ?thesis
    by (simp add: listener_def page_total_def close_def split: sum.split)
qed (simp_all add: listener_def page_total_def)

lemma listener_entry_total:
  "entry_total (listener ev s) =
     entry_total s + (if other_request (Deliver ev) \<or> other_response (Deliver ev) then 1 else 0)"
proof (cases ev)
  case (LifecycleEvent e)
  then show ?thesis
    by (simp add: listener_def entry_total_def close_def split: sum.split)
qed (simp_all add: listener_def entry_total_def)

lemma resume_totals:
  assumes "sess_crashed s = None" and "sess_crashed (step F S (Resume i) s) = None"
  shows "page_total (step F S (Resume i) s) = page_total s"
    and "entry_total (step F S (Resume i) s) = entry_total s"
proof -
  show "page_total (step F S (Resume i) s) = page_total s"
  proof (cases "i < length (sess_goroutines s)")
    case False
    then show ?thesis by (simp add: step_def)
  next
    case True
    show ?thesis
    proof (cases "ch_closed (sess_ch s)")
      case c: True
      with True assms show ?thesis by (simp add: step_def run_goroutine_closed)
    next
      case c: False
      from run_goroutine_open [OF c, of F S "sess_goroutines s ! i"]
      obtain m where m: "run_goroutine F S (sess_goroutines s ! i) (sess_ch s) =
          Inr ((sess_ch s)\<lparr>ch_queue := ch_queue (sess_ch s) @ [m]\<rparr>)"
        and p: "is_page m = sends_page (sess_goroutines s ! i)" by blast
      from filter_remove_nth [OF True, of sends_page] p m True
      show ?thesis by (simp add: step_def page_total_def split: if_splits)
    qed
  qed
  show "entry_total (step F S (Resume i) s) = entry_total s"
  proof (cases "i < length (sess_goroutines s)")
    case False
    then show ?thesis by (simp add: step_def)
  next
    case True
    show ?thesis
    proof (cases "ch_closed (sess_ch s)")
      case c: True
      with True assms show ?thesis by (simp add: step_def run_goroutine_closed)
    next
      case c: False
      from run_goroutine_open [OF c, of F S "sess_goroutines s ! i"]
      obtain m where m: "run_goroutine F S (sess_goroutines s ! i) (sess_ch s) =
          Inr ((sess_ch s)\<lparr>ch_queue := ch_queue (sess_ch s) @ [m]\<rparr>)"
        and p: "is_page m = sends_page (sess_goroutines s ! i)" by blast
      from filter_remove_nth [OF True, of "\<lambda>g. \<not> sends_page g"] p m True
      show ?thesis by (simp add: step_def entry_total_def split: if_splits)
    qed
  qed
qed

lemma step_totals:
  assumes "sess_crashed s = None" and "sess_crashed (step F S st s) = None"
  shows "page_total (step F S st s) =
           page_total s + (if document_request st \<or> document_response st then 1 else 0)"
    and "entry_total (step F S st s) =
           entry_total s + (if other_request st \<or> other_response st then 1 else 0)"
proof -
  show "page_total (step F S st s) =
           page_total s + (if document_request st \<or> document_response st then 1 else 0)"
  proof (cases st)
    case (Deliver ev)
    then show ?thesis using listener_page_total [of ev s] by (simp add: step_def)
  next
    case (Resume i)
    then show ?thesis using resume_totals(1) [of s F S i] assms by simp
  qed
  show "entry_total (step F S st s) =
           entry_total s + (if other_request st \<or> other_response st then 1 else 0)"
  proof (cases st)
    case (Deliver ev)
    then show ?thesis using listener_entry_total [of ev s] by (simp add: step_def)
  next
    case (Resume i)
    then show ?thesis using resume_totals(2) [of s F S i] assms by simp
  qed
qed

lemma exec_crashed_sticky:
  "sess_crashed (exec F S s steps) = None \<Longrightarrow> sess_crashed s = None"
  by (cases steps) (auto split: if_splits)

lemma exec_totals:
  "sess_crashed (exec F S s steps) = None \<Longrightarrow>
   page_total (exec F S s steps) =
     page_total s + length (filter document_request steps) + length (filter document_response steps) \<and>
   entry_total (exec F S s steps) =
     entry_total s + length (filter other_request steps) + length (filter other_response steps)"
proof (induction steps arbitrary: s)
  case Nil
  show ?case by simp
next
  case (Cons st rest)
  from Cons.prems have s: "sess_crashed s = None" by (rule exec_crashed_sticky)
  with Cons.prems have e: "sess_crashed (exec F S (step F S st s) rest) = None" by simp
  then have s': "sess_crashed (step F S st s) = None" by (rule exec_crashed_sticky)
  have dr: "\<not> (document_request st \<and> document_response st)"
    by (cases st rule: document_request.cases) simp_all
  have orr: "\<not> (other_request st \<and> other_response st)"
    by (cases st rule: other_request.cases) simp_all
  from Cons.IH [OF e] step_totals [OF s s'] dr orr s
  show ?case by auto
qed

text \<open>
  Steps and the closed flag of the channel.
\<close>

lemma step_closed_channel:
  assumes "ch_closed (sess_ch s)"
  shows "sess_ch (step F S st s) = sess_ch s"
proof (cases st)
  case (Deliver ev)
  then show ?thesis
    using assms by (cases ev) (simp_all add: step_def listener_def close_def)
next
  case (Resume i)
  then show ?thesis
    using assms by (simp add: step_def run_goroutine_closed)
qed

lemma step_keeps_closed_flag:
  assumes "\<not> delivers_interactive st"
  shows "ch_closed (sess_ch (step F S st s)) = ch_closed (sess_ch s)"
proof (cases st)
  case (Deliver ev)
  then show ?thesis
    using assms by (cases ev) (simp_all add: step_def listener_def)
next
  case (Resume i)
  show ?thesis
  proof (cases "ch_closed (sess_ch s)")
    case True
    then show ?thesis by (simp add: step_closed_channel)
  next
    case False
    from run_goroutine_open [OF False, of F S "sess_goroutines s ! i"]
    obtain m where "run_goroutine F S (sess_goroutines s ! i) (sess_ch s) =
        Inr ((sess_ch s)\<lparr>ch_queue := ch_queue (sess_ch s) @ [m]\<rparr>)" by blast
    then show ?thesis by (simp add: Resume step_def)
  qed
qed

lemma step_no_close_panic:
  assumes "\<not> delivers_interactive st \<or> \<not> ch_closed (sess_ch s)"
    and "sess_crashed s \<noteq> Some CloseOfClosedChannel"
  shows "sess_crashed (step F S st s) \<noteq> Some CloseOfClosedChannel"
proof (cases st)
  case (Deliver ev)
  then show ?thesis
    using assms by (cases ev) (auto simp: step_def listener_def close_def)
next
  case (Resume i)
  show ?thesis
  proof (cases "ch_closed (sess_ch s)")
    case True
    then show ?thesis using assms(2) by (simp add: Resume step_def run_goroutine_closed)
  next
    case False
    from run_goroutine_open [OF False, of F S "sess_goroutines s ! i"]
    obtain m where "run_goroutine F S (sess_goroutines s ! i) (sess_ch s) =
        Inr ((sess_ch s)\<lparr>ch_queue := ch_queue (sess_ch s) @ [m]\<rparr>)" by blast
    then show ?thesis using assms(2) by (simp add: Resume step_def)
  qed
qed

lemma step_interactive_closes:
  assumes "delivers_interactive st" and "\<not> ch_closed (sess_ch s)"
  shows "ch_closed (sess_ch (step F S st s))"
  using assms by (cases st rule: delivers_interactive.cases) (simp_all add: step_def listener_def close_def)

lemma exec_no_close_panic:
  "sess_crashed s \<noteq> Some CloseOfClosedChannel \<Longrightarrow>
   length (filter delivers_interactive steps) \<le> (if ch_closed (sess_ch s) then 0 else 1) \<Longrightarrow>
   sess_crashed (exec F S s steps) \<noteq> Some CloseOfClosedChannel"
proof (induction steps arbitrary: s)
  case Nil
  then show ?case by simp
next
  case (Cons st rest)
  show ?case
  proof (cases "sess_crashed s = None")
    case False
    with Cons.prems(1) show ?thesis by auto
  next
    case True
    have a: "\<not> delivers_interactive st \<or> \<not> ch_closed (sess_ch s)"
      using Cons.prems(2) by (auto split: if_splits)
    have c: "sess_crashed (step F S st s) \<noteq> Some CloseOfClosedChannel"
      by (rule step_no_close_panic [OF a Cons.prems(1)])
    have b: "length (filter delivers_interactive rest) \<le>
             (if ch_closed (sess_ch (step F S st s)) then 0 else 1)"
    proof (cases "delivers_interactive st")
      case di: True
      with a have "\<not> ch_closed (sess_ch s)" by simp
      with di Cons.prems(2) show ?thesis by (simp add: step_interactive_closes)
    next
      case di: False
      with Cons.prems(2) show ?thesis by (simp add: step_keeps_closed_flag)
    qed
    from Cons.IH [OF c b] True show ?thesis by simp
  qed
qed

lemma step_interactive_is_close:
  assumes "delivers_interactive st"
  shows "step F S st s =
           (case close (sess_ch s) of
              Inl p \<Rightarrow> s\<lparr>sess_crashed := Some p\<rparr>
            | Inr c \<Rightarrow> s\<lparr>sess_ch := c\<rparr>)"
  using assms
  by (cases st rule: delivers_interactive.cases) (simp_all add: step_def listener_def)

lemma step_open_no_crash:
  assumes "\<not> ch_closed (sess_ch s)"
  shows "sess_crashed (step F S st s) = sess_crashed s"
proof (cases st)
  case (Deliver ev)
  then show ?thesis
    using assms by (cases ev) (simp_all add: step_def listener_def close_def)
next
  case (Resume i)
  from run_goroutine_open [OF assms, of F S "sess_goroutines s ! i"]
  obtain m where "run_goroutine F S (sess_goroutines s ! i) (sess_ch s) =
      Inr ((sess_ch s)\<lparr>ch_queue := ch_queue (sess_ch s) @ [m]\<rparr>)" by blast
  then show ?thesis by (simp add: Resume step_def)
qed

lemma exec_closed_channel:
  "ch_closed (sess_ch s) \<Longrightarrow> sess_ch (exec F S s steps) = sess_ch s"
proof (induction steps arbitrary: s)
  case Nil
  show ?case by simp
next
  case (Cons st rest)
  from Cons.prems have "sess_ch (step F S st s) = sess_ch s" by (rule step_closed_channel)
  with Cons.IH [of "step F S st s"] Cons.prems show ?case by simp
qed

lemma exec_closed_iff_interactive:
  "\<not> ch_closed (sess_ch s) \<Longrightarrow> sess_crashed s = None \<Longrightarrow>
   ch_closed (sess_ch (exec F S s steps)) = (filter delivers_interactive steps \<noteq> [])"
proof (induction steps arbitrary: s)
  case Nil
  then show ?case by simp
next
  case (Cons st rest)
  have nc: "sess_crashed (step F S st s) = None"
    using step_open_no_crash [OF Cons.prems(1), of F S st] Cons.prems(2) by simp
  show ?case
  proof (cases "delivers_interactive st")
    case True
    then have "ch_closed (sess_ch (step F S st s))"
      using Cons.prems(1) by (rule step_interactive_closes)
    then have "ch_closed (sess_ch (exec F S (step F S st s) rest))"
      by (simp add: exec_closed_channel)
    with True Cons.prems(2) show ?thesis by simp
  next
    case False
    then have "\<not> ch_closed (sess_ch (step F S st s))"
      using Cons.prems(1) by (simp add: step_keeps_closed_flag)
    from Cons.IH [OF this nc] False Cons.prems(2) show ?thesis by simp
  qed
qed

lemma exec_stays_open:
  "filter delivers_interactive steps = [] \<Longrightarrow> \<not> ch_closed (sess_ch s) \<Longrightarrow>
   \<not> ch_closed (sess_ch (exec F S s steps))"
proof (induction steps arbitrary: s)
  case Nil
  then show ?case by simp
next
  case (Cons st rest)
  from Cons.prems(1) have n: "\<not> delivers_interactive st" and r: "filter delivers_interactive rest = []"
    by (auto split: if_splits)
  from Cons.prems(2) n have "\<not> ch_closed (sess_ch (step F S st s))"
    by (simp add: step_keeps_closed_flag)
  from Cons.IH [OF r this] Cons.prems(2) show ?case by simp
qed

text \<open>
  A concrete run: the request for a document, its response and the lifecycle event.
\<close>

lemma exec_example_response:
  "sess_ch (exec id id new_session
     [Deliver (RequestWillBeSent
        \<lparr>RequestID = ''7'', Request = \<lparr>req_Method = ''GET'', req_URL = ''https://google.com/'', req_Headers = []\<rparr>,
         WallTime = ''2021-05-01T10:00:00.5Z'', Type = ''Document''\<rparr>),
      Resume 0,
      Deliver (ResponseReceived \<lparr>resp_RequestID = ''7'', resp_Type = ''Document''\<rparr>),
      Resume 0,
      Deliver (LifecycleEvent \<lparr>Name = ''InteractiveTime''\<rparr>)]) =
   \<lparr>ch_closed = True,
    ch_queue = [MsgPage \<lparr>page_ID = ''page_7'', page_StartedDateTime = ''2021-05-01T10:00:00.5Z'',
                         page_Title = ''https://google.com/''\<rparr>,
                MsgPage zero_Page]\<rparr>"
  by code_simp

section \<open>The claims\<close>

text \<open>
  Claim C1. For a request event sent on an open channel, \<open>processRequest\<close> sends exactly
  one record. For the resource type Document it is a page whose id is \<open>page_\<close> followed
  by the request id, whose start time is the formatted wall-clock time of the event and
  whose title is the request URL. For any other resource type it is an entry whose page
  reference is \<open>page_\<close> followed by the event's own request id, with the start time
  formatted in the same way and a request made of the event's method, its URL and the
  headers as \<open>headersToHAR\<close> returns them.
\<close>

theorem processRequest_page_or_entry:
  assumes "\<not> ch_closed harCh"
  shows "(Type ev = ResourceTypeDocument \<longrightarrow>
            processRequest FormatRFC3339Nano Sprint ev harCh =
              Inr (harCh\<lparr>ch_queue := ch_queue harCh @
                [MsgPage \<lparr>page_ID = ''page_'' @ RequestID ev,
                          page_StartedDateTime = FormatRFC3339Nano (WallTime ev),
                          page_Title = req_URL (Request ev)\<rparr>]\<rparr>)) \<and>
         (Type ev \<noteq> ResourceTypeDocument \<longrightarrow>
            processRequest FormatRFC3339Nano Sprint ev harCh =
              Inr (harCh\<lparr>ch_queue := ch_queue harCh @
                [MsgEntry \<lparr>entry_Pageref = ''page_'' @ RequestID ev,
                           entry_StartedDateTime = FormatRFC3339Nano (WallTime ev),
                           entry_Request = Some
                             \<lparr>har_Method = req_Method (Request ev),
                              har_URL = req_URL (Request ev),
                              har_Headers = headersToHAR Sprint (req_Headers (Request ev))\<rparr>\<rparr>]\<rparr>))"
  using assms by (simp add: processRequest_def send_def)

theorem processRequest_page_or_entry_witness:
  "\<not> ch_closed make_chan \<and>
   Type example_document = ResourceTypeDocument \<and>
   processRequest id id example_document make_chan =
     Inr \<lparr>ch_closed = False,
          ch_queue = [MsgPage \<lparr>page_ID = ''page_7'',
                               page_StartedDateTime = ''2021-05-01T10:00:00.5Z'',
                               page_Title = ''https://google.com/''\<rparr>]\<rparr> \<and>
   Type example_image \<noteq> ResourceTypeDocument \<and>
   processRequest id id example_image make_chan =
     Inr \<lparr>ch_closed = False,
          ch_queue = [MsgEntry \<lparr>entry_Pageref = ''page_8'',
                                entry_StartedDateTime = ''2021-05-01T10:00:00.75Z'',
                                entry_Request = Some
                                  \<lparr>har_Method = ''GET'',
                                   har_URL = ''https://google.com/logo.png'',
                                   har_Headers =
                                     [\<lparr>nvp_Name = ''Accept'', nvp_Value = ''image/png''\<rparr>,
                                      \<lparr>nvp_Name = ''Accept'', nvp_Value = ''image/*''\<rparr>,
                                      \<lparr>nvp_Name = ''Referer'', nvp_Value = ''https://google.com/''\<rparr>]\<rparr>\<rparr>]\<rparr>"
proof -
  have o: "\<not> ch_closed make_chan" by (simp add: make_chan_def)
  have d: "Type example_document = ResourceTypeDocument"
    by (simp add: example_document_def ResourceTypeDocument_def)
  have i: "Type example_image \<noteq> ResourceTypeDocument"
    by (simp add: example_image_def ResourceTypeDocument_def)
  from processRequest_page_or_entry [OF o, of example_document id id] d
  have 1: "processRequest id id example_document make_chan =
     Inr \<lparr>ch_closed = False,
          ch_queue = [MsgPage \<lparr>page_ID = ''page_7'',
                               page_StartedDateTime = ''2021-05-01T10:00:00.5Z'',
                               page_Title = ''https://google.com/''\<rparr>]\<rparr>"
    by (simp add: make_chan_def example_document_def)
  from processRequest_page_or_entry [OF o, of example_image id id] i
  have 2: "processRequest id id example_image make_chan =
     Inr \<lparr>ch_closed = False,
          ch_queue = [MsgEntry \<lparr>entry_Pageref = ''page_8'',
                                entry_StartedDateTime = ''2021-05-01T10:00:00.75Z'',
                                entry_Request = Some
                                  \<lparr>har_Method = ''GET'',
                                   har_URL = ''https://google.com/logo.png'',
                                   har_Headers =
                                     [\<lparr>nvp_Name = ''Accept'', nvp_Value = ''image/png''\<rparr>,
                                      \<lparr>nvp_Name = ''Accept'', nvp_Value = ''image/*''\<rparr>,
                                      \<lparr>nvp_Name = ''Referer'', nvp_Value = ''https://google.com/''\<rparr>]\<rparr>\<rparr>]\<rparr>"
    by (simp add: make_chan_def example_image_def headersToHAR_def)
  from o d 1 i 2 show ?thesis by blast
qed

text \<open>
  Claim C2, as amended. The response hook sends one empty record for every response
  event, a page for a document and an entry otherwise, and the receiving loop appends it
  like any other record. So in a session that did not crash, in which every goroutine
  got its send accepted and the channel was closed, the pages of the final log are as
  many as the request events and the response events for documents together, and the
  entries as many as the request events and the response events for other resources.
\<close>

theorem response_placeholders_counted:
  assumes "sess_crashed (exec F S new_session steps) = None"
    and "sess_goroutines (exec F S new_session steps) = []"
    and "ch_closed (sess_ch (exec F S new_session steps))"
  shows "(\<not> ch_closed c \<longrightarrow>
            processResponse ev c =
              Inr (c\<lparr>ch_queue := ch_queue c @
                [if resp_Type ev = ResourceTypeDocument then MsgPage zero_Page
                 else MsgEntry zero_Entry]\<rparr>)) \<and>
         (\<exists>harObject.
            drain (sess_ch (exec F S new_session steps)) harObject_init = Some harObject \<and>
            length (Pages (Log harObject)) =
              length (filter document_request steps) + length (filter document_response steps) \<and>
            length (Entries (Log harObject)) =
              length (filter other_request steps) + length (filter other_response steps))"
proof
  show "\<not> ch_closed c \<longrightarrow>
          processResponse ev c =
            Inr (c\<lparr>ch_queue := ch_queue c @
              [if resp_Type ev = ResourceTypeDocument then MsgPage zero_Page
               else MsgEntry zero_Entry]\<rparr>)"
    by (simp add: processResponse_def send_def)
next
  let ?s = "exec F S new_session steps"
  have p0: "page_total (new_session :: ('a, 'b) session) = 0"
    and e0: "entry_total (new_session :: ('a, 'b) session) = 0"
    by (simp_all add: page_total_def entry_total_def new_session_def make_chan_def)
  from exec_totals [OF assms(1)] p0 e0 assms(2)
  have "length (filter is_page (ch_queue (sess_ch ?s))) =
          length (filter document_request steps) + length (filter document_response steps)"
    and "length (filter (\<lambda>m. \<not> is_page m) (ch_queue (sess_ch ?s))) =
          length (filter other_request steps) + length (filter other_response steps)"
    by (simp_all add: page_total_def entry_total_def)
  then show "\<exists>harObject.
      drain (sess_ch ?s) harObject_init = Some harObject \<and>
      length (Pages (Log harObject)) =
        length (filter document_request steps) + length (filter document_response steps) \<and>
      length (Entries (Log harObject)) =
        length (filter other_request steps) + length (filter other_response steps)"
    using drain_closed_gen [OF assms(3), of harObject_init]
    by (simp add: length_received_pages length_received_entries harObject_init_def)
qed

theorem response_placeholders_counted_witness:
  "sess_crashed (exec id id new_session
     [Deliver (RequestWillBeSent example_document), Resume 0,
      Deliver (RequestWillBeSent example_image),
      Deliver (ResponseReceived \<lparr>resp_RequestID = ''7'', resp_Type = ''Document''\<rparr>),
      Resume 1, Resume 0,
      Deliver (LifecycleEvent \<lparr>Name = ''InteractiveTime''\<rparr>)]) = None \<and>
   sess_goroutines (exec id id new_session
     [Deliver (RequestWillBeSent example_document), Resume 0,
      Deliver (RequestWillBeSent example_image),
      Deliver (ResponseReceived \<lparr>resp_RequestID = ''7'', resp_Type = ''Document''\<rparr>),
      Resume 1, Resume 0,
      Deliver (LifecycleEvent \<lparr>Name = ''InteractiveTime''\<rparr>)]) = [] \<and>
   ch_closed (sess_ch (exec id id new_session
     [Deliver (RequestWillBeSent example_document), Resume 0,
      Deliver (RequestWillBeSent example_image),
      Deliver (ResponseReceived \<lparr>resp_RequestID = ''7'', resp_Type = ''Document''\<rparr>),
      Resume 1, Resume 0,
      Deliver (LifecycleEvent \<lparr>Name = ''InteractiveTime''\<rparr>)])) \<and>
   \<not> ch_closed make_chan \<and>
   processResponse \<lparr>resp_RequestID = ''8'', resp_Type = ''Image''\<rparr> make_chan =
     Inr \<lparr>ch_closed = False, ch_queue = [MsgEntry zero_Entry]\<rparr> \<and>
   (\<exists>harObject.
      drain (sess_ch (exec id id new_session
        [Deliver (RequestWillBeSent example_document), Resume 0,
         Deliver (RequestWillBeSent example_image),
         Deliver (ResponseReceived \<lparr>resp_RequestID = ''7'', resp_Type = ''Document''\<rparr>),
         Resume 1, Resume 0,
         Deliver (LifecycleEvent \<lparr>Name = ''InteractiveTime''\<rparr>)])) harObject_init = Some harObject \<and>
      length (Pages (Log harObject)) = 2 \<and> length (Entries (Log harObject)) = 1)"
proof -
  let ?steps = "[Deliver (RequestWillBeSent example_document), Resume 0,
      Deliver (RequestWillBeSent example_image),
      Deliver (ResponseReceived \<lparr>resp_RequestID = ''7'', resp_Type = ''Document''\<rparr>),
      Resume 1, Resume 0,
      Deliver (LifecycleEvent \<lparr>Name = ''InteractiveTime''\<rparr>)]"
  let ?ev = "\<lparr>resp_RequestID = ''8'', resp_Type = ''Image''\<rparr>"
  have a: "sess_crashed (exec id id new_session ?steps) = None" by code_simp
  have b: "sess_goroutines (exec id id new_session ?steps) = []" by code_simp
  have c: "ch_closed (sess_ch (exec id id new_session ?steps))" by code_simp
  have o: "\<not> ch_closed make_chan" by (simp add: make_chan_def)
  have n: "length (filter document_request ?steps) + length (filter document_response ?steps) = 2"
    "length (filter other_request ?steps) + length (filter other_response ?steps) = 1"
    by code_simp+
  note inst = response_placeholders_counted [OF a b c, of make_chan ?ev]
  from inst o have 1: "processResponse ?ev make_chan =
      Inr \<lparr>ch_closed = False, ch_queue = [MsgEntry zero_Entry]\<rparr>"
    by (simp add: make_chan_def ResourceTypeDocument_def)
  from inst n
  have 2: "\<exists>harObject.
      drain (sess_ch (exec id id new_session ?steps)) harObject_init = Some harObject \<and>
      length (Pages (Log harObject)) = 2 \<and> length (Entries (Log harObject)) = 1"
    by simp
  from a b c o 1 2 show ?thesis by blast
qed

text \<open>
  Claim C2 as stated fails: after the request for a document, its response and the
  lifecycle event, the final log has two pages, the second one empty, for one document
  request event.
\<close>

theorem response_placeholder_appended_counterexample:
  "drain (sess_ch (exec id id new_session
     [Deliver (RequestWillBeSent
        \<lparr>RequestID = ''7'', Request = \<lparr>req_Method = ''GET'', req_URL = ''https://google.com/'', req_Headers = []\<rparr>,
         WallTime = ''2021-05-01T10:00:00.5Z'', Type = ''Document''\<rparr>),
      Resume 0,
      Deliver (ResponseReceived \<lparr>resp_RequestID = ''7'', resp_Type = ''Document''\<rparr>),
      Resume 0,
      Deliver (LifecycleEvent \<lparr>Name = ''InteractiveTime''\<rparr>)])) harObject_init =
   Some (harObject_init\<lparr>Log := (Log harObject_init)
     \<lparr>Pages := [\<lparr>page_ID = ''page_7'', page_StartedDateTime = ''2021-05-01T10:00:00.5Z'',
                  page_Title = ''https://google.com/''\<rparr>, zero_Page]\<rparr>\<rparr>) \<and>
   length (filter document_request
     [Deliver (RequestWillBeSent
        \<lparr>RequestID = ''7'', Request = \<lparr>req_Method = ''GET'', req_URL = ''https://google.com/'', req_Headers = []\<rparr>,
         WallTime = ''2021-05-01T10:00:00.5Z'', Type = ''Document''\<rparr>),
      Resume 0,
      Deliver (ResponseReceived \<lparr>resp_RequestID = ''7'', resp_Type = ''Document''\<rparr>),
      Resume 0,
      Deliver (LifecycleEvent \<lparr>Name = ''InteractiveTime''\<rparr>)]) = 1"
  by (simp only: exec_example_response)
     (simp add: drain_closed_gen received_pages_def received_entries_def
        harObject_init_def ResourceTypeDocument_def)

text \<open>
  Claim C3. When the channel is closed after accepting the values \<open>msgs\<close>, the loop
  returns the initial object with the accepted pages as its pages and the accepted
  entries as its entries, each in the order of acceptance; the two lengths add up to the
  number of accepted values.
\<close>

theorem drain_splits_pages_entries:
  "drain \<lparr>ch_closed = True, ch_queue = msgs\<rparr> harObject_init =
     Some (harObject_init\<lparr>Log := (Log harObject_init)
             \<lparr>Pages := received_pages msgs, Entries := received_entries msgs\<rparr>\<rparr>) \<and>
   length (received_pages msgs) + length (received_entries msgs) = length msgs"
proof
  show "drain \<lparr>ch_closed = True, ch_queue = msgs\<rparr> harObject_init =
     Some (harObject_init\<lparr>Log := (Log harObject_init)
             \<lparr>Pages := received_pages msgs, Entries := received_entries msgs\<rparr>\<rparr>)"
    by (simp add: drain_closed_gen) (simp add: harObject_init_def)
next
  show "length (received_pages msgs) + length (received_entries msgs) = length msgs"
    by (induction msgs) (simp_all add: received_pages_def received_entries_def split: har_msg.split)
qed

theorem drain_splits_pages_entries_witness:
  "drain \<lparr>ch_closed = True,
          ch_queue = [MsgEntry zero_Entry,
                      MsgPage \<lparr>page_ID = ''page_7'', page_StartedDateTime = ''2021-05-01T10:00:00.5Z'',
                               page_Title = ''https://google.com/''\<rparr>,
                      MsgEntry \<lparr>entry_Pageref = ''page_8'', entry_StartedDateTime = ''2021-05-01T10:00:00.75Z'',
                                entry_Request = None\<rparr>]\<rparr> harObject_init =
     Some (harObject_init\<lparr>Log := (Log harObject_init)
       \<lparr>Pages := [\<lparr>page_ID = ''page_7'', page_StartedDateTime = ''2021-05-01T10:00:00.5Z'',
                    page_Title = ''https://google.com/''\<rparr>],
        Entries := [zero_Entry,
                    \<lparr>entry_Pageref = ''page_8'', entry_StartedDateTime = ''2021-05-01T10:00:00.75Z'',
                     entry_Request = None\<rparr>]\<rparr>\<rparr>)"
  using drain_splits_pages_entries [of "[MsgEntry zero_Entry,
                      MsgPage \<lparr>page_ID = ''page_7'', page_StartedDateTime = ''2021-05-01T10:00:00.5Z'',
                               page_Title = ''https://google.com/''\<rparr>,
                      MsgEntry \<lparr>entry_Pageref = ''page_8'', entry_StartedDateTime = ''2021-05-01T10:00:00.75Z'',
                                entry_Request = None\<rparr>]"]
  by (simp add: received_pages_def received_entries_def)

text \<open>
  Claim C4, as amended. Once the channel is closed, no later event and no later send
  changes it: the values it accepted stay what they were at the close, and the log the
  loop builds has those pages and entries and nothing else.
\<close>

theorem send_after_close_not_reflected:
  assumes "ch_closed (sess_ch s)"
  shows "sess_ch (exec F S s steps) = sess_ch s \<and>
         drain (sess_ch (exec F S s steps)) harObject_init =
           Some (harObject_init\<lparr>Log := (Log harObject_init)
             \<lparr>Pages := received_pages (ch_queue (sess_ch s)),
              Entries := received_entries (ch_queue (sess_ch s))\<rparr>\<rparr>)"
proof -
  from assms have same: "sess_ch (exec F S s steps) = sess_ch s"
  proof (induction steps arbitrary: s)
    case Nil
    show ?case by simp
  next
    case (Cons st rest)
    from Cons.prems have "sess_ch (step F S st s) = sess_ch s" by (rule step_closed_channel)
    with Cons.IH [of "step F S st s"] Cons.prems show ?case by simp
  qed
  have "drain (sess_ch s) harObject_init =
      Some (harObject_init\<lparr>Log := (Log harObject_init)
        \<lparr>Pages := received_pages (ch_queue (sess_ch s)),
         Entries := received_entries (ch_queue (sess_ch s))\<rparr>\<rparr>)"
    using drain_closed_gen [OF assms, of harObject_init] by (simp add: harObject_init_def)
  with same show ?thesis by simp
qed

theorem send_after_close_not_reflected_witness:
  "ch_closed (sess_ch
     \<lparr>sess_ch = \<lparr>ch_closed = True, ch_queue = [MsgPage zero_Page]\<rparr>,
      sess_goroutines = [GoProcessRequest example_image], sess_crashed = None\<rparr>) \<and>
   sess_ch (exec id id
     \<lparr>sess_ch = \<lparr>ch_closed = True, ch_queue = [MsgPage zero_Page]\<rparr>,
      sess_goroutines = [GoProcessRequest example_image], sess_crashed = None\<rparr>
     [Resume 0]) = \<lparr>ch_closed = True, ch_queue = [MsgPage zero_Page]\<rparr> \<and>
   drain (sess_ch (exec id id
     \<lparr>sess_ch = \<lparr>ch_closed = True, ch_queue = [MsgPage zero_Page]\<rparr>,
      sess_goroutines = [GoProcessRequest example_image], sess_crashed = None\<rparr>
     [Resume 0])) harObject_init =
     Some (harObject_init\<lparr>Log := (Log harObject_init)\<lparr>Pages := [zero_Page], Entries := []\<rparr>\<rparr>)"
proof -
  let ?s = "\<lparr>sess_ch = \<lparr>ch_closed = True, ch_queue = [MsgPage zero_Page]\<rparr>,
      sess_goroutines = [GoProcessRequest example_image], sess_crashed = None\<rparr>"
  have c: "ch_closed (sess_ch ?s)" by simp
  have r: "received_pages (ch_queue (sess_ch ?s)) = [zero_Page]"
    "received_entries (ch_queue (sess_ch ?s)) = []"
    by (simp_all add: received_pages_def received_entries_def)
  note inst = send_after_close_not_reflected [OF c, of id id "[Resume 0]"]
  have s: "sess_ch ?s = \<lparr>ch_closed = True, ch_queue = [MsgPage zero_Page]\<rparr>" by simp
  have "sess_ch (exec id id ?s [Resume 0]) = sess_ch ?s"
    using inst by (rule conjunct1)
  then have 1: "sess_ch (exec id id ?s [Resume 0]) =
      \<lparr>ch_closed = True, ch_queue = [MsgPage zero_Page]\<rparr>"
    using s by (rule trans)
  have 2: "drain (sess_ch (exec id id ?s [Resume 0])) harObject_init =
      Some (harObject_init\<lparr>Log := (Log harObject_init)\<lparr>Pages := [zero_Page], Entries := []\<rparr>\<rparr>)"
    using inst [THEN conjunct2] unfolding r .
  from c 1 2 show ?thesis by blast
qed

text \<open>
  Claim C4 as stated fails: a send after the close is not dropped without error. The
  goroutine of a request event delivered after the lifecycle event panics with a send on
  a closed channel.
\<close>

theorem send_after_close_panics_counterexample:
  "sess_crashed (exec id id new_session
     [Deliver (LifecycleEvent \<lparr>Name = ''InteractiveTime''\<rparr>),
      Deliver (RequestWillBeSent example_image),
      Resume 0]) = Some SendOnClosedChannel"
  by code_simp

text \<open>
  Claim C6. When the navigation returns an error, \<open>main\<close> returns after logging the
  warning \<open>error navigating: ...\<close> with the error's message: it never calls
  \<open>os.WriteFile\<close> and does not log the success message.
\<close>

theorem main_navigation_error:
  "\<exists>out. main (Some err) harCh MarshalIndent WriteFile = Some out \<and>
         writes out = [] \<and>
         logs out = [Warn (''error navigating: '' @ err)] \<and>
         Info ''HAR file generated successfully.'' \<notin> set (logs out)"
  by (simp add: main_def)

theorem main_navigation_error_witness:
  "main (Some ''context deadline exceeded'')
     \<lparr>ch_closed = True, ch_queue = [MsgPage zero_Page]\<rparr>
     (\<lambda>harObject. Inr ''{}'') (\<lambda>name data. None) =
     Some \<lparr>logs = [Warn ''error navigating: context deadline exceeded''], writes = []\<rparr>"
  using main_navigation_error [of "''context deadline exceeded''"
      "\<lparr>ch_closed = True, ch_queue = [MsgPage zero_Page]\<rparr>" "\<lambda>harObject. Inr ''{}''" "\<lambda>name data. None"]
  by auto

text \<open>
  Claim C7, as amended. The close is issued by the callback alone, once for every
  lifecycle event named \<open>InteractiveTime\<close> it is given: the delivery of such an event is
  a close of the channel, which on an open channel closes it and changes nothing else,
  and no other step changes whether the channel is closed. So the channel of a session
  is closed exactly when its schedule delivered such an event, and a session whose
  schedule delivers at most one never closes a closed channel.
\<close>

theorem close_once_if_one_interactive_event:
  "(delivers_interactive st \<longrightarrow>
      step F S st s =
        (case close (sess_ch s) of
           Inl p \<Rightarrow> s\<lparr>sess_crashed := Some p\<rparr>
         | Inr c \<Rightarrow> s\<lparr>sess_ch := c\<rparr>)) \<and>
   (delivers_interactive st \<and> \<not> ch_closed (sess_ch s) \<longrightarrow>
      step F S st s = s\<lparr>sess_ch := (sess_ch s)\<lparr>ch_closed := True\<rparr>\<rparr>) \<and>
   ch_closed (sess_ch (exec F S new_session steps)) = (filter delivers_interactive steps \<noteq> []) \<and>
   (length (filter delivers_interactive steps) \<le> 1 \<longrightarrow>
      sess_crashed (exec F S new_session steps) \<noteq> Some CloseOfClosedChannel) \<and>
   (\<not> delivers_interactive st \<longrightarrow>
      ch_closed (sess_ch (step F S st s)) = ch_closed (sess_ch s))"
proof (intro conjI impI)
  assume "delivers_interactive st"
  then show "step F S st s =
        (case close (sess_ch s) of
           Inl p \<Rightarrow> s\<lparr>sess_crashed := Some p\<rparr>
         | Inr c \<Rightarrow> s\<lparr>sess_ch := c\<rparr>)"
    by (rule step_interactive_is_close)
next
  assume "delivers_interactive st \<and> \<not> ch_closed (sess_ch s)"
  then show "step F S st s = s\<lparr>sess_ch := (sess_ch s)\<lparr>ch_closed := True\<rparr>\<rparr>"
    by (simp add: step_interactive_is_close close_def)
next
  show "ch_closed (sess_ch (exec F S new_session steps)) =
        (filter delivers_interactive steps \<noteq> [])"
    by (rule exec_closed_iff_interactive) (simp_all add: new_session_def make_chan_def)
next
  assume "length (filter delivers_interactive steps) \<le> 1"
  then show "sess_crashed (exec F S new_session steps) \<noteq> Some CloseOfClosedChannel"
    using exec_no_close_panic [of new_session steps F S]
    by (simp add: new_session_def make_chan_def)
next
  assume "\<not> delivers_interactive st"
  then show "ch_closed (sess_ch (step F S st s)) = ch_closed (sess_ch s)"
    by (rule step_keeps_closed_flag)
qed

theorem close_once_if_one_interactive_event_witness:
  "delivers_interactive
     (Deliver (LifecycleEvent \<lparr>Name = ''InteractiveTime''\<rparr>) :: (string, string) step) \<and>
   \<not> ch_closed (sess_ch (new_session :: (string, string) session)) \<and>
   step id id (Deliver (LifecycleEvent \<lparr>Name = ''InteractiveTime''\<rparr>))
     (new_session :: (string, string) session) =
     \<lparr>sess_ch = \<lparr>ch_closed = True, ch_queue = []\<rparr>, sess_goroutines = [], sess_crashed = None\<rparr> \<and>
   length (filter delivers_interactive
     [Deliver (RequestWillBeSent example_document), Resume 0,
      Deliver (LifecycleEvent \<lparr>Name = ''load''\<rparr>),
      Deliver (LifecycleEvent \<lparr>Name = ''InteractiveTime''\<rparr>)]) \<le> 1 \<and>
   sess_crashed (exec id id new_session
     [Deliver (RequestWillBeSent example_document), Resume 0,
      Deliver (LifecycleEvent \<lparr>Name = ''load''\<rparr>),
      Deliver (LifecycleEvent \<lparr>Name = ''InteractiveTime''\<rparr>)]) \<noteq> Some CloseOfClosedChannel \<and>
   ch_closed (sess_ch (exec id id new_session
     [Deliver (RequestWillBeSent example_document), Resume 0,
      Deliver (LifecycleEvent \<lparr>Name = ''load''\<rparr>),
      Deliver (LifecycleEvent \<lparr>Name = ''InteractiveTime''\<rparr>)])) \<and>
   \<not> delivers_interactive (Deliver (LifecycleEvent \<lparr>Name = ''load''\<rparr>) :: (string, string) step) \<and>
   ch_closed (sess_ch (step id id (Deliver (LifecycleEvent \<lparr>Name = ''load''\<rparr>))
     (new_session :: (string, string) session))) = ch_closed (sess_ch (new_session :: (string, string) session))"
proof -
  let ?steps = "[Deliver (RequestWillBeSent example_document), Resume 0,
      Deliver (LifecycleEvent \<lparr>Name = ''load''\<rparr>),
      Deliver (LifecycleEvent \<lparr>Name = ''InteractiveTime''\<rparr>)]"
  let ?st = "Deliver (LifecycleEvent \<lparr>Name = ''load''\<rparr>) :: (string, string) step"
  let ?it = "Deliver (LifecycleEvent \<lparr>Name = ''InteractiveTime''\<rparr>) :: (string, string) step"
  let ?s0 = "new_session :: (string, string) session"
  have a: "length (filter delivers_interactive ?steps) \<le> 1" by simp
  have b: "\<not> delivers_interactive ?st" by simp
  have d: "delivers_interactive ?it" by simp
  have o: "\<not> ch_closed (sess_ch ?s0)" by (simp add: new_session_def make_chan_def)
  have n: "filter delivers_interactive ?steps \<noteq> []" by simp
  from close_once_if_one_interactive_event [of ?it id id ?s0 ?steps] d o
  have 1: "step id id ?it ?s0 = ?s0\<lparr>sess_ch := (sess_ch ?s0)\<lparr>ch_closed := True\<rparr>\<rparr>"
    by blast
  have 2: "?s0\<lparr>sess_ch := (sess_ch ?s0)\<lparr>ch_closed := True\<rparr>\<rparr> =
      \<lparr>sess_ch = \<lparr>ch_closed = True, ch_queue = []\<rparr>, sess_goroutines = [], sess_crashed = None\<rparr>"
    by (simp add: new_session_def make_chan_def)
  from close_once_if_one_interactive_event [of ?st id id ?s0 ?steps] a b n
  have 3: "sess_crashed (exec id id new_session ?steps) \<noteq> Some CloseOfClosedChannel"
    and 4: "ch_closed (sess_ch (exec id id new_session ?steps))"
    and 5: "ch_closed (sess_ch (step id id ?st ?s0)) = ch_closed (sess_ch ?s0)"
    by blast+
  from d o 1 [unfolded 2] a 3 4 b 5 show ?thesis by blast
qed

text \<open>
  Claim C7 as stated fails: nothing keeps the callback from closing twice. The second
  lifecycle event named \<open>InteractiveTime\<close> panics with the close of a closed channel.
\<close>

theorem close_twice_counterexample:
  "sess_crashed (exec id id (new_session :: (string, string) session)
     [Deliver (LifecycleEvent \<lparr>Name = ''InteractiveTime''\<rparr>),
      Deliver (LifecycleEvent \<lparr>Name = ''InteractiveTime''\<rparr>)]) = Some CloseOfClosedChannel"
  by code_simp

text \<open>
  Claim C8, as amended. When no lifecycle event named \<open>InteractiveTime\<close> is delivered,
  the channel is never closed. A failed navigation then ends \<open>main\<close> with the navigation
  warning alone; after a successful navigation the receiving loop does not finish and
  \<open>main\<close> does not return. Either way no file is written, no success message is logged
  and no error about the incomplete capture is reported.
\<close>

theorem no_interactive_event_no_artifact:
  assumes "filter delivers_interactive steps = []"
  shows "main navErr (sess_ch (exec F S new_session steps)) MarshalIndent WriteFile =
           (case navErr of
              Some err \<Rightarrow> Some \<lparr>logs = [Warn (''error navigating: '' @ err)], writes = []\<rparr>
            | None \<Rightarrow> None)"
proof -
  have "\<not> ch_closed (sess_ch (exec F S new_session steps))"
    by (rule exec_stays_open [OF assms]) (simp add: new_session_def make_chan_def)
  then have "drain (sess_ch (exec F S new_session steps)) harObject_init = None"
    by (rule drain_open_None)
  then show ?thesis by (simp add: main_def split: option.split)
qed

theorem no_interactive_event_no_artifact_witness:
  "filter delivers_interactive
     [Deliver (RequestWillBeSent example_image), Resume 0,
      Deliver (LifecycleEvent \<lparr>Name = ''load''\<rparr>)] = [] \<and>
   main None
     (sess_ch (exec id id new_session
        [Deliver (RequestWillBeSent example_image), Resume 0,
         Deliver (LifecycleEvent \<lparr>Name = ''load''\<rparr>)]))
     (\<lambda>harObject. Inr ''{}'') (\<lambda>name data. None) = None \<and>
   main (Some ''context deadline exceeded'')
     (sess_ch (exec id id new_session
        [Deliver (RequestWillBeSent example_image), Resume 0,
         Deliver (LifecycleEvent \<lparr>Name = ''load''\<rparr>)]))
     (\<lambda>harObject. Inr ''{}'') (\<lambda>name data. None) =
     Some \<lparr>logs = [Warn ''error navigating: context deadline exceeded''], writes = []\<rparr>"
proof -
  let ?steps = "[Deliver (RequestWillBeSent example_image), Resume 0,
      Deliver (LifecycleEvent \<lparr>Name = ''load''\<rparr>)]"
  have a: "filter delivers_interactive ?steps = []" by simp
  from no_interactive_event_no_artifact [OF a, of None id id "\<lambda>harObject. Inr ''{}''" "\<lambda>name data. None"]
  have 1: "main None (sess_ch (exec id id new_session ?steps))
     (\<lambda>harObject. Inr ''{}'') (\<lambda>name data. None) = None"
    by (simp only: option.case)
  from no_interactive_event_no_artifact [OF a, of "Some ''context deadline exceeded''" id id
      "\<lambda>harObject. Inr ''{}''" "\<lambda>name data. None"]
  have 2: "main (Some ''context deadline exceeded'') (sess_ch (exec id id new_session ?steps))
     (\<lambda>harObject. Inr ''{}'') (\<lambda>name data. None) =
     Some \<lparr>logs = [Warn ''error navigating: context deadline exceeded''], writes = []\<rparr>"
    by (simp only: option.case append.simps)
  from a 1 2 show ?thesis by blast
qed

text \<open>
  Claim C8 as stated fails: with a successful navigation, one accepted record and no
  lifecycle event, \<open>main\<close> does not return, so it reports nothing.
\<close>

theorem never_interactive_hangs_counterexample:
  "main None
     (sess_ch (exec id id new_session
        [Deliver (RequestWillBeSent example_document), Resume 0]))
     (\<lambda>harObject. Inr ''{}'') (\<lambda>name data. None) = None"
proof -
  have "sess_ch (exec id id new_session
        [Deliver (RequestWillBeSent example_document), Resume 0]) =
      \<lparr>ch_closed = False,
       ch_queue = [MsgPage \<lparr>page_ID = ''page_7'', page_StartedDateTime = ''2021-05-01T10:00:00.5Z'',
                            page_Title = ''https://google.com/''\<rparr>]\<rparr>"
    by code_simp
  then show ?thesis
    by (simp only: main_def) (simp add: drain_open_None)
qed







end
